theory Spec2Isabelle
  imports Main "HOL-Library.Sublist"
begin

section \<open>JavaScript string replacement\<close>

text \<open>
  The project materializer of \<^verbatim>\<open>services/buildService.js\<close> patches the template files
  with \<^verbatim>\<open>String.prototype.replace\<close>. Strings are modelled as \<^typ>\<open>string\<close>; the only
  line terminators of the 8-bit character type are line feed and carriage return.

  Every regular expression of the service has the shape \<^verbatim>\<open>lit cls{least,} closing\<close>, optionally
  anchored at the start of the input: a literal, one greedy quantifier over a character
  class, and a literal after it. A string pattern is the case with an empty class.
\<close>

record pattern =
  anchored :: bool
  lit :: string
  cls :: "char \<Rightarrow> bool"
  least :: nat
  closing :: string

definition str_pattern :: "string \<Rightarrow> pattern" where
  "str_pattern l = \<lparr>anchored = False, lit = l, cls = (\<lambda>_. False), least = 0, closing = []\<rparr>"

definition line_terminator :: "char \<Rightarrow> bool" where
  "line_terminator c = (c = CHR 0x0A \<or> c = CHR 0x0D)"

definition dot :: "char \<Rightarrow> bool" where
  "dot c = (\<not> line_terminator c)"

definition char_between :: "char \<Rightarrow> char \<Rightarrow> char \<Rightarrow> bool" where
  "char_between lo hi c = ((of_char lo :: nat) \<le> of_char c \<and> (of_char c :: nat) \<le> of_char hi)"

definition word_char :: "char \<Rightarrow> bool" where
  "word_char c =
     (char_between (CHR ''a'') (CHR ''z'') c \<or> char_between (CHR ''A'') (CHR ''Z'') c \<or>
      char_between (CHR ''0'') (CHR ''9'') c \<or> c = CHR ''_'')"

text \<open>
  The greedy quantifier with backtracking: it takes a character of the class when the rest
  of the pattern still matches after it, and stops otherwise. The result is the number of
  characters the quantifier consumed.
\<close>

fun greedy :: "(char \<Rightarrow> bool) \<Rightarrow> nat \<Rightarrow> string \<Rightarrow> string \<Rightarrow> nat option" where
  "greedy P n suf [] = (if n = 0 \<and> suf = [] then Some 0 else None)"
| "greedy P n suf (c # s) =
     (case (if P c then greedy P (n - 1) suf s else None) of
        Some k \<Rightarrow> Some (Suc k)
      | None \<Rightarrow> if n = 0 \<and> prefix suf (c # s) then Some 0 else None)"

definition match_here :: "pattern \<Rightarrow> string \<Rightarrow> nat option" where
  "match_here p s =
     (if prefix (lit p) s then
        map_option (\<lambda>k. length (lit p) + k + length (closing p))
          (greedy (cls p) (least p) (closing p) (drop (length (lit p)) s))
      else None)"

text \<open>The leftmost match: the text before it, the matched text and the text after it.\<close>

fun find_match :: "pattern \<Rightarrow> string \<Rightarrow> (string \<times> string \<times> string) option" where
  "find_match p [] = (case match_here p [] of Some n \<Rightarrow> Some ([], [], []) | None \<Rightarrow> None)"
| "find_match p (c # s) =
     (case match_here p (c # s) of
        Some n \<Rightarrow> Some ([], take n (c # s), drop n (c # s))
      | None \<Rightarrow> if anchored p then None
                else map_option (\<lambda>(b, m, a). (c # b, m, a)) (find_match p s))"

text \<open>
  The replacement text is a template: \<^verbatim>\<open>$$\<close> is a dollar sign, \<^verbatim>\<open>$&\<close> the matched
  text, \<^verbatim>\<open>$`\<close> the text before the match and \<^verbatim>\<open>$'\<close> the text after it. None of the
  patterns has a capture group, so \<^verbatim>\<open>$1\<close> and \<^verbatim>\<open>$<\<close> stay as they are.
\<close>

fun getSubstitution :: "string \<Rightarrow> string \<Rightarrow> string \<Rightarrow> string \<Rightarrow> string" where
  "getSubstitution m b a [] = []"
| "getSubstitution m b a [c] = [c]"
| "getSubstitution m b a (c # d # r) =
     (if c = CHR ''$'' \<and> d = CHR ''$'' then CHR ''$'' # getSubstitution m b a r
      else if c = CHR ''$'' \<and> d = CHR ''&'' then m @ getSubstitution m b a r
      else if c = CHR ''$'' \<and> d = CHR 0x60 then b @ getSubstitution m b a r
      else if c = CHR ''$'' \<and> d = CHR 0x27 then a @ getSubstitution m b a r
      else c # getSubstitution m b a (d # r))"

text \<open>
  A replacement text with no pattern in it: no dollar sign is followed by a dollar sign, an
  ampersand, a backquote or a quote.
\<close>

fun literal_template :: "string \<Rightarrow> bool" where
  "literal_template [] = True"
| "literal_template [c] = True"
| "literal_template (c # d # r) =
     (\<not> (c = CHR ''$'' \<and> (d = CHR ''$'' \<or> d = CHR ''&'' \<or> d = CHR 0x60 \<or> d = CHR 0x27)) \<and>
      literal_template (d # r))"

text \<open>\<^verbatim>\<open>s.replace(p, r)\<close> without the global flag: the first match only.\<close>

definition js_replace :: "pattern \<Rightarrow> string \<Rightarrow> string \<Rightarrow> string" where
  "js_replace p r s =
     (case find_match p s of
        None \<Rightarrow> s
      | Some (b, m, a) \<Rightarrow> b @ getSubstitution m b a r @ a)"

text \<open>
  \<^verbatim>\<open>s.replace(/c/g, r)\<close> for a one-character pattern and a replacement without a dollar
  sign: every occurrence, left to right.
\<close>

definition js_replace_all_char :: "char \<Rightarrow> string \<Rightarrow> string \<Rightarrow> string" where
  "js_replace_all_char c r s = concat (map (\<lambda>x. if x = c then r else [x]) s)"

section \<open>Occurrences of a text\<close>

text \<open>No occurrence of \<open>l\<close> starts inside \<open>x\<close> when \<open>x\<close> is followed by \<open>y\<close>.\<close>

definition no_start :: "string \<Rightarrow> string \<Rightarrow> string \<Rightarrow> bool" where
  "no_start l x y = (\<forall>k < length x. \<not> prefix l (drop k (x @ y)))"


section \<open>Build configuration\<close>

text \<open>The \<^verbatim>\<open>appConfig\<close> and \<^verbatim>\<open>features\<close> objects of the build schema and of the job data.\<close>

record appConfig =
  websiteUrl :: string
  appName :: string
  packageName :: string
  versionCode :: "int option"
  versionName :: "string option"
  splashBackground :: "string option"
  splashImage :: "string option"
  appIcon :: "string option"

record features =
  pullToRefresh :: bool
  progressBar :: bool
  errorPage :: bool
  fileUpload :: bool
  deepLinking :: bool
  swipeRefresh :: bool
  geolocation :: bool
  localStorage :: bool

text \<open>
  The package name format of the schema and of \<^verbatim>\<open>createBuild\<close>,
  \<^verbatim>\<open>/^[a-z][a-z0-9_]*(\.[a-z][a-z0-9_]*)+$/\<close>: at least two segments separated by dots, each
  a lower-case letter followed by lower-case letters, digits and underscores.
\<close>

definition lower_char :: "char \<Rightarrow> bool" where
  "lower_char c = char_between (CHR ''a'') (CHR ''z'') c"

definition digit_char :: "char \<Rightarrow> bool" where
  "digit_char c = char_between (CHR ''0'') (CHR ''9'') c"

definition segment_char :: "char \<Rightarrow> bool" where
  "segment_char c = (lower_char c \<or> digit_char c \<or> c = CHR ''_'')"

fun split_dots :: "string \<Rightarrow> string list" where
  "split_dots [] = [[]]"
| "split_dots (c # s) =
     (if c = CHR ''.'' then [] # split_dots s
      else (case split_dots s of seg # segs \<Rightarrow> (c # seg) # segs | [] \<Rightarrow> [[c]]))"

definition valid_segment :: "string \<Rightarrow> bool" where
  "valid_segment seg = (case seg of [] \<Rightarrow> False | c # r \<Rightarrow> lower_char c \<and> list_all segment_char r)"

definition validPackageName :: "string \<Rightarrow> bool" where
  "validPackageName name =
     (let segs = split_dots name in 2 \<le> length segs \<and> list_all valid_segment segs)"

section \<open>Manifest patch\<close>

definition package_attr_pattern :: pattern where
  \<open>package_attr_pattern =
     \<lparr>anchored = False, lit = ''package="'', cls = (\<lambda>c. c \<noteq> CHR 0x22), least = 0,
      closing = [CHR 0x22]\<rparr>\<close>

definition application_tag :: string where
  "application_tag = ''<application''"

definition base_permissions :: string where
  \<open>base_permissions =
     [CHR 0x0A] @ ''    <uses-permission android:name="android.permission.INTERNET" />'' @
     [CHR 0x0A] @ ''    <uses-permission android:name="android.permission.ACCESS_NETWORK_STATE" />''\<close>

definition storage_permissions :: string where
  \<open>storage_permissions =
     [CHR 0x0A] @ ''    <uses-permission android:name="android.permission.READ_EXTERNAL_STORAGE" />'' @
     [CHR 0x0A] @ ''    <uses-permission android:name="android.permission.WRITE_EXTERNAL_STORAGE" android:maxSdkVersion="28" />''\<close>

definition location_permissions :: string where
  \<open>location_permissions =
     [CHR 0x0A] @ ''    <uses-permission android:name="android.permission.ACCESS_FINE_LOCATION" />'' @
     [CHR 0x0A] @ ''    <uses-permission android:name="android.permission.ACCESS_COARSE_LOCATION" />''\<close>

definition permissions :: "features \<Rightarrow> string" where
  "permissions f =
     (let permissions = base_permissions;
          permissions = (if fileUpload f then permissions @ storage_permissions else permissions);
          permissions = (if geolocation f then permissions @ location_permissions else permissions)
      in permissions)"

text \<open>The text transformation of \<^verbatim>\<open>updateAndroidManifest\<close>, between reading and writing the file.\<close>

definition updateAndroidManifest :: "string \<Rightarrow> appConfig \<Rightarrow> features \<Rightarrow> string" where
  \<open>updateAndroidManifest manifest cfg f =
     (let manifest = js_replace package_attr_pattern (''package="'' @ packageName cfg @ [CHR 0x22]) manifest
      in js_replace (str_pattern application_tag)
           (permissions f @ [CHR 0x0A, CHR 0x0A] @ ''    <application'') manifest)\<close>

text \<open>
  The permission declarations the specification lists for a feature set, one line each: the
  two network permissions always, the two storage permissions for file upload, the two
  location permissions for geolocation.
\<close>

definition internet_line :: string where
  \<open>internet_line = ''    <uses-permission android:name="android.permission.INTERNET" />''\<close>

definition network_state_line :: string where
  \<open>network_state_line =
     ''    <uses-permission android:name="android.permission.ACCESS_NETWORK_STATE" />''\<close>

definition read_storage_line :: string where
  \<open>read_storage_line =
     ''    <uses-permission android:name="android.permission.READ_EXTERNAL_STORAGE" />''\<close>

definition write_storage_line :: string where
  \<open>write_storage_line =
     ''    <uses-permission android:name="android.permission.WRITE_EXTERNAL_STORAGE" android:maxSdkVersion="28" />''\<close>

definition fine_location_line :: string where
  \<open>fine_location_line =
     ''    <uses-permission android:name="android.permission.ACCESS_FINE_LOCATION" />''\<close>

definition coarse_location_line :: string where
  \<open>coarse_location_line =
     ''    <uses-permission android:name="android.permission.ACCESS_COARSE_LOCATION" />''\<close>

definition declared_permissions :: "features \<Rightarrow> string list" where
  "declared_permissions f =
     [internet_line, network_state_line] @
     (if fileUpload f then [read_storage_line, write_storage_line] else []) @
     (if geolocation f then [fine_location_line, coarse_location_line] else [])"

definition on_new_lines :: "string list \<Rightarrow> string" where
  "on_new_lines ls = concat (map (\<lambda>l. CHR 0x0A # l) ls)"

section \<open>Display name patch\<close>

definition escapeXml :: "string \<Rightarrow> string" where
  "escapeXml str =
     js_replace_all_char (CHR 0x27) ''&apos;''
       (js_replace_all_char (CHR 0x22) ''&quot;''
         (js_replace_all_char (CHR ''>'') ''&gt;''
           (js_replace_all_char (CHR ''<'') ''&lt;''
             (js_replace_all_char (CHR ''&'') ''&amp;'' str))))"

definition app_name_open :: string where
  \<open>app_name_open = ''<string name="app_name">''\<close>

definition app_name_close :: string where
  "app_name_close = ''</string>''"

definition app_name_pattern :: pattern where
  "app_name_pattern =
     \<lparr>anchored = False, lit = app_name_open, cls = dot, least = 0, closing = app_name_close\<rparr>"

text \<open>The text transformation of \<^verbatim>\<open>updateStringsXml\<close>, between reading and writing the file.\<close>

definition updateStringsXml :: "string \<Rightarrow> appConfig \<Rightarrow> string" where
  "updateStringsXml strings cfg =
     js_replace app_name_pattern (app_name_open @ escapeXml (appName cfg) @ app_name_close) strings"

text \<open>The entity of one character: what the claim calls XML-escaping.\<close>

definition xml_entity :: "char \<Rightarrow> string" where
  "xml_entity c =
     (if c = CHR ''&'' then ''&amp;''
      else if c = CHR ''<'' then ''&lt;''
      else if c = CHR ''>'' then ''&gt;''
      else if c = CHR 0x22 then ''&quot;''
      else if c = CHR 0x27 then ''&apos;''
      else [c])"


text \<open>
  The check of the app name on the route that creates a build: 2 to 50 characters, all of
  them matching \<^verbatim>\<open>/^[a-zA-Z0-9\s\-_]+$/\<close>.
\<close>

definition white_space_char :: "char \<Rightarrow> bool" where
  "white_space_char c =
     (c = CHR 0x09 \<or> c = CHR 0x0A \<or> c = CHR 0x0B \<or> c = CHR 0x0C \<or> c = CHR 0x0D \<or>
      c = CHR '' '' \<or> c = CHR 0xA0)"

definition app_name_char :: "char \<Rightarrow> bool" where
  "app_name_char c = (word_char c \<or> white_space_char c \<or> c = CHR ''-'')"

definition validAppName :: "string \<Rightarrow> bool" where
  "validAppName name = (2 \<le> length name \<and> length name \<le> 50 \<and> list_all app_name_char name)"
section \<open>Runtime configuration patch\<close>















section \<open>Example inputs\<close>

text \<open>
  The configuration of the scenario of the specification: package \<^verbatim>\<open>com.acme.demo\<close>, every
  feature at the default of the build schema, so file upload and geolocation are off.
\<close>

definition demo_config :: appConfig where
  "demo_config =
     \<lparr>websiteUrl = ''https://example.com'', appName = ''Demo'', packageName = ''com.acme.demo'',
      versionCode = None, versionName = None, splashBackground = Some ''#112233'',
      splashImage = None, appIcon = None\<rparr>"

definition demo_features :: features where
  "demo_features =
     \<lparr>pullToRefresh = True, progressBar = True, errorPage = True, fileUpload = False,
      deepLinking = False, swipeRefresh = True, geolocation = False, localStorage = True\<rparr>"

text \<open>A manifest and a string resource file of the shape the patches expect.\<close>

definition example_manifest :: string where
  \<open>example_manifest =
     ''<manifest package="com.web2apk.template">'' @ [CHR 0x0A] @
     ''    <application android:label="@string/app_name" />'' @ [CHR 0x0A] @
     ''</manifest>''\<close>


section \<open>Signing\<close>

text \<open>
  What the build worker takes from outside: the environment variables, the clock, and the
  outcome of every operation on the file system and of every external tool. An operation
  either succeeds or throws the error \<open>fails\<close> gives for it. A user may cancel the build
  while the worker waits for one operation, \<open>cancelDuring\<close>. Calls of the logger are left out,
  and operations on the database are taken to succeed.
\<close>

record jsError =
  err_message :: "string option"
  err_stack :: "string option"
  err_code :: "string option"

datatype step =
    Mkdir string
  | CopyDirectory string string
  | PatchManifest string
  | PatchBuildGradle string
  | PatchStrings string
  | ProcessIcon string
  | ProcessSplash string
  | PatchActivity string
  | Chmod string
  | ExecGradle string
  | Access string
  | CopyFile string string
  | Stat string
  | Rm string

record world =
  fails :: "step \<Rightarrow> jsError option"
  ANDROID_SDK_ROOT :: "string option"
  ANDROID_BUILD_TOOLS_VERSION :: "string option"
  KEYSTORE_PATH :: "string option"
  KEYSTORE_PASSWORD :: "string option"
  KEY_ALIAS :: "string option"
  KEY_PASSWORD :: "string option"
  APK_RETENTION_DAYS_PRO :: "int option"
  APK_RETENTION_DAYS_FREE :: "int option"
  TEMP_DIR :: string
  BUILD_OUTPUT_DIR :: string
  ANDROID_TEMPLATE_DIR :: string
  apksigner_ok :: "string \<Rightarrow> bool"
  stat_size :: nat
  clock :: int
  cancelDuring :: "step option"
  cancelUser :: string

text \<open>
  An environment variable is \<open>None\<close> when it is not set; the two retention periods are
  given as \<^verbatim>\<open>parseInt\<close> reads them, \<open>None\<close> for \<^verbatim>\<open>NaN\<close>. A value is falsy when it is
  missing, empty or zero. A missing value reads \<^verbatim>\<open>undefined\<close> in a template literal.
\<close>

definition truthy :: "string option \<Rightarrow> bool" where
  "truthy v = (case v of None \<Rightarrow> False | Some s \<Rightarrow> s \<noteq> [])"

definition or_string :: "string option \<Rightarrow> string \<Rightarrow> string" where
  "or_string v d = (case v of None \<Rightarrow> d | Some s \<Rightarrow> if s = [] then d else s)"

definition or_number :: "int option \<Rightarrow> int \<Rightarrow> int" where
  "or_number v d = (case v of None \<Rightarrow> d | Some n \<Rightarrow> if n = 0 then d else n)"

definition interpolate :: "string option \<Rightarrow> string" where
  "interpolate v = (case v of None \<Rightarrow> ''undefined'' | Some s \<Rightarrow> s)"

text \<open>\<^verbatim>\<open>new Error(message)\<close>; of the stack only its first line is kept.\<close>

definition new_Error :: "string \<Rightarrow> jsError" where
  "new_Error m = \<lparr>err_message = Some m, err_stack = Some (''Error: '' @ m), err_code = None\<rparr>"

text \<open>\<^verbatim>\<open>path.join\<close> of a directory and a relative path without dots.\<close>

definition path_join :: "string \<Rightarrow> string \<Rightarrow> string" where
  "path_join dir name = dir @ ''/'' @ name"

definition apksigner_command :: "world \<Rightarrow> string \<Rightarrow> string \<Rightarrow> string" where
  "apksigner_command w signedApkPath unsignedApkPath =
     interpolate (ANDROID_SDK_ROOT w) @ ''/build-tools/'' @
     interpolate (ANDROID_BUILD_TOOLS_VERSION w) @ ''/apksigner sign '' @
     ''--ks '' @ interpolate (KEYSTORE_PATH w) @ '' '' @
     ''--ks-pass pass:'' @ interpolate (KEYSTORE_PASSWORD w) @ '' '' @
     ''--ks-key-alias '' @ interpolate (KEY_ALIAS w) @ '' '' @
     ''--key-pass pass:'' @ interpolate (KEY_PASSWORD w) @ '' '' @
     ''--out '' @ signedApkPath @ '' '' @
     unsignedApkPath"

text \<open>
  \<^verbatim>\<open>signAPK\<close> has no path on which it throws: without a keystore it returns at once, and
  the call of the signing tool is inside a \<^verbatim>\<open>try\<close> whose handler returns the unsigned
  path.
\<close>

definition signAPK :: "world \<Rightarrow> string \<Rightarrow> string \<Rightarrow> string" where
  "signAPK w unsignedApkPath bid =
     (let signedApkPath = path_join (TEMP_DIR w) (bid @ ''-signed.apk'') in
      if \<not> truthy (KEYSTORE_PATH w) \<or> \<not> truthy (KEYSTORE_PASSWORD w) \<or>
         \<not> truthy (KEY_ALIAS w) \<or> \<not> truthy (KEY_PASSWORD w)
      then unsignedApkPath
      else if apksigner_ok w (apksigner_command w signedApkPath unsignedApkPath)
           then signedApkPath
           else unsignedApkPath)"

section \<open>The build record\<close>

datatype status = Pending | Queued | Building | Completed | Failed | Cancelled

record BuildRecord =
  user :: string
  buildId :: string
  status :: status
  progress :: int
  currentStep :: string
  output_apkPath :: "string option"
  output_apkSize :: "nat option"
  output_downloadUrl :: "string option"
  output_cloudinaryPublicId :: "string option"
  buildTime_startedAt :: "int option"
  buildTime_completedAt :: "int option"
  buildTime_duration :: "int option"
  error_message :: "string option"
  error_stack :: "string option"
  error_code :: "string option"
  jobId :: "string option"
  expiresAt :: "int option"
  isPremium :: bool

text \<open>The difference of two dates; a missing date counts as the epoch.\<close>

definition date_minus :: "int \<Rightarrow> int option \<Rightarrow> int" where
  "date_minus t s = t - (case s of None \<Rightarrow> 0 | Some u \<Rightarrow> u)"

definition updateProgress :: "int \<Rightarrow> string \<Rightarrow> BuildRecord \<Rightarrow> BuildRecord" where
  "updateProgress p stp this = this\<lparr>progress := p, currentStep := stp\<rparr>"

definition markCompleted ::
  "world \<Rightarrow> string \<Rightarrow> nat \<Rightarrow> string \<Rightarrow> string option \<Rightarrow> BuildRecord \<Rightarrow> BuildRecord" where
  "markCompleted w apkPath apkSize downloadUrl cloudinaryPublicId this =
     (let retentionDays =
            (if isPremium this then or_number (APK_RETENTION_DAYS_PRO w) 365
             else or_number (APK_RETENTION_DAYS_FREE w) 1)
      in this\<lparr>status := Completed,
               progress := 100,
               currentStep := ''Build completed successfully'',
               output_apkPath := Some apkPath,
               output_apkSize := Some apkSize,
               output_downloadUrl := Some downloadUrl,
               output_cloudinaryPublicId := cloudinaryPublicId,
               buildTime_completedAt := Some (clock w),
               buildTime_duration := Some (date_minus (clock w) (buildTime_startedAt this)),
               expiresAt := Some (clock w + retentionDays * 24 * 60 * 60 * 1000)\<rparr>)"

definition markFailed :: "world \<Rightarrow> jsError \<Rightarrow> BuildRecord \<Rightarrow> BuildRecord" where
  "markFailed w err this =
     this\<lparr>status := Failed,
          error_message := Some (or_string (err_message err) ''Build failed''),
          error_stack := (if truthy (err_stack err) then err_stack err else None),
          error_code := Some (or_string (err_code err) ''BUILD_ERROR''),
          buildTime_completedAt := Some (clock w),
          buildTime_duration := Some (date_minus (clock w) (buildTime_startedAt this))\<rparr>"

text \<open>
  \<^verbatim>\<open>save\<close> writes the paths of the document that were assigned a new value since it was
  loaded or last saved; the other paths of the stored record stay as they are.
\<close>

definition save :: "BuildRecord \<Rightarrow> BuildRecord \<Rightarrow> BuildRecord \<Rightarrow> BuildRecord" where
  "save loaded this stored =
     stored\<lparr>status := (if status this \<noteq> status loaded then status this else status stored),
            progress := (if progress this \<noteq> progress loaded then progress this else progress stored),
            currentStep :=
              (if currentStep this \<noteq> currentStep loaded then currentStep this else currentStep stored),
            output_apkPath :=
              (if output_apkPath this \<noteq> output_apkPath loaded then output_apkPath this
               else output_apkPath stored),
            output_apkSize :=
              (if output_apkSize this \<noteq> output_apkSize loaded then output_apkSize this
               else output_apkSize stored),
            output_downloadUrl :=
              (if output_downloadUrl this \<noteq> output_downloadUrl loaded then output_downloadUrl this
               else output_downloadUrl stored),
            output_cloudinaryPublicId :=
              (if output_cloudinaryPublicId this \<noteq> output_cloudinaryPublicId loaded
               then output_cloudinaryPublicId this else output_cloudinaryPublicId stored),
            buildTime_completedAt :=
              (if buildTime_completedAt this \<noteq> buildTime_completedAt loaded
               then buildTime_completedAt this else buildTime_completedAt stored),
            buildTime_duration :=
              (if buildTime_duration this \<noteq> buildTime_duration loaded then buildTime_duration this
               else buildTime_duration stored),
            error_message :=
              (if error_message this \<noteq> error_message loaded then error_message this
               else error_message stored),
            error_stack :=
              (if error_stack this \<noteq> error_stack loaded then error_stack this
               else error_stack stored),
            error_code :=
              (if error_code this \<noteq> error_code loaded then error_code this else error_code stored),
            expiresAt :=
              (if expiresAt this \<noteq> expiresAt loaded then expiresAt this else expiresAt stored)\<rparr>"

text \<open>
  \<^verbatim>\<open>cancelBuild\<close> of the build controller, on the stored record. Removing the job from the
  queue is inside a \<^verbatim>\<open>try\<close> that ignores a failure and does not touch the record.
\<close>

datatype httpError = NotFound | Forbidden | BadRequest

definition cancelBuild :: "string \<Rightarrow> BuildRecord option \<Rightarrow> httpError + BuildRecord" where
  "cancelBuild uid found =
     (case found of
        None \<Rightarrow> Inl NotFound
      | Some b \<Rightarrow>
          if user b \<noteq> uid then Inl Forbidden
          else if status b \<notin> {Pending, Queued, Building} then Inl BadRequest
          else Inr (b\<lparr>status := Cancelled, currentStep := ''Build cancelled by user''\<rparr>))"

section \<open>The build worker\<close>

text \<open>
  The state of one run of the worker: its document object, the stored record, and the
  records stored so far, in order, which is what a client polling the status sees.
\<close>

record wstate =
  build :: BuildRecord
  db :: BuildRecord
  hist :: "BuildRecord list"

type_synonym 'a io = "wstate \<Rightarrow> (jsError + 'a) \<times> wstate"

definition andThen :: "'a io \<Rightarrow> ('a \<Rightarrow> 'b io) \<Rightarrow> 'b io" where
  "andThen m k = (\<lambda>s. case m s of (Inl e, s') \<Rightarrow> (Inl e, s') | (Inr x, s') \<Rightarrow> k x s')"

definition return :: "'a \<Rightarrow> 'a io" where
  "return x = (\<lambda>s. (Inr x, s))"

text \<open>A method call on the worker's document followed by \<^verbatim>\<open>save\<close>.\<close>

definition call_and_save :: "(BuildRecord \<Rightarrow> BuildRecord) \<Rightarrow> wstate \<Rightarrow> wstate" where
  "call_and_save method s =
     (let this = method (build s); stored = save (build s) this (db s)
      in s\<lparr>build := this, db := stored, hist := hist s @ [stored]\<rparr>)"

text \<open>A cancel request served by the API while the worker waits.\<close>

definition serve_cancel :: "world \<Rightarrow> wstate \<Rightarrow> wstate" where
  "serve_cancel w s =
     (case cancelBuild (cancelUser w) (Some (db s)) of
        Inl _ \<Rightarrow> s
      | Inr stored \<Rightarrow> s\<lparr>db := stored, hist := hist s @ [stored]\<rparr>)"

definition attempt :: "world \<Rightarrow> step \<Rightarrow> unit io" where
  "attempt w st =
     (\<lambda>s. let s' = (if cancelDuring w = Some st then serve_cancel w s else s)
          in case fails w st of None \<Rightarrow> (Inr (), s') | Some e \<Rightarrow> (Inl e, s'))"

definition access_apk :: "world \<Rightarrow> string \<Rightarrow> string io" where
  "access_apk w path =
     (\<lambda>s. case attempt w (Access path) s of
            (Inl _, s') \<Rightarrow> (Inl (new_Error ''APK file not found after build''), s')
          | (Inr _, s') \<Rightarrow> (Inr path, s'))"

definition buildWithGradle :: "world \<Rightarrow> string \<Rightarrow> string io" where
  "buildWithGradle w projectDir =
     andThen (attempt w (Chmod (path_join projectDir ''gradlew''))) (\<lambda>_.
     (\<lambda>s. case andThen (attempt w (ExecGradle projectDir)) (\<lambda>_.
                  access_apk w
                    (path_join projectDir ''app/build/outputs/apk/release/app-release-unsigned.apk'')) s
          of (Inl err, s') \<Rightarrow>
               (Inl (new_Error (''Build failed: '' @ interpolate (err_message err))), s')
           | (Inr path, s') \<Rightarrow> (Inr path, s')))"

record job =
  job_buildId :: string
  job_userId :: string
  job_appConfig :: appConfig
  job_features :: features
  job_isPremium :: bool

record buildResult =
  apkPath :: string
  apkSize :: nat
  downloadUrl :: string

text \<open>The stages of \<^verbatim>\<open>buildAPK\<close> after the APK is built: sign, publish, clean up.\<close>

definition publish :: "world \<Rightarrow> job \<Rightarrow> (int \<Rightarrow> string \<Rightarrow> unit io) \<Rightarrow> string \<Rightarrow> string \<Rightarrow> buildResult io" where
  "publish w j reportProgress projectDir path =
     andThen (reportProgress 90 ''Signing APK...'') (\<lambda>_.
     (let signedApkPath = signAPK w path (job_buildId j) in
      andThen (reportProgress 95 ''Finalizing...'') (\<lambda>_.
      (let finalApkPath = path_join (BUILD_OUTPUT_DIR w) (job_buildId j @ ''.apk'') in
       andThen (attempt w (Mkdir (BUILD_OUTPUT_DIR w))) (\<lambda>_.
       andThen (attempt w (CopyFile signedApkPath finalApkPath)) (\<lambda>_.
       andThen (attempt w (Stat finalApkPath)) (\<lambda>_.
       andThen (attempt w (Rm projectDir)) (\<lambda>_.
       return \<lparr>apkPath = finalApkPath, apkSize = stat_size w,
                downloadUrl = ''/downloads/'' @ job_buildId j @ ''.apk''\<rparr>))))))))"

text \<open>The stages of \<^verbatim>\<open>buildAPK\<close> up to the Gradle build.\<close>

definition materialize :: "world \<Rightarrow> (int \<Rightarrow> string \<Rightarrow> unit io) \<Rightarrow> string \<Rightarrow> string io" where
  "materialize w reportProgress projectDir =
     andThen (reportProgress 15 ''Creating project structure...'') (\<lambda>_.
     andThen (attempt w (Mkdir projectDir)) (\<lambda>_.
     andThen (reportProgress 20 ''Copying Android template...'') (\<lambda>_.
     andThen (attempt w (CopyDirectory (ANDROID_TEMPLATE_DIR w) projectDir)) (\<lambda>_.
     andThen (reportProgress 30 ''Configuring app manifest...'') (\<lambda>_.
     andThen (attempt w (PatchManifest projectDir)) (\<lambda>_.
     andThen (reportProgress 40 ''Configuring build scripts...'') (\<lambda>_.
     andThen (attempt w (PatchBuildGradle projectDir)) (\<lambda>_.
     andThen (reportProgress 45 ''Setting app name...'') (\<lambda>_.
     andThen (attempt w (PatchStrings projectDir)) (\<lambda>_.
     andThen (reportProgress 50 ''Processing app icon...'') (\<lambda>_.
     andThen (attempt w (ProcessIcon projectDir)) (\<lambda>_.
     andThen (reportProgress 55 ''Creating splash screen...'') (\<lambda>_.
     andThen (attempt w (ProcessSplash projectDir)) (\<lambda>_.
     andThen (reportProgress 60 ''Configuring WebView...'') (\<lambda>_.
     andThen (attempt w (PatchActivity projectDir)) (\<lambda>_.
     andThen (reportProgress 70 ''Building APK (this may take a few minutes)...'') (\<lambda>_.
     buildWithGradle w projectDir)))))))))))))))))"

definition buildAPK :: "world \<Rightarrow> job \<Rightarrow> (int \<Rightarrow> string \<Rightarrow> unit io) \<Rightarrow> buildResult io" where
  "buildAPK w j reportProgress =
     (let projectDir = path_join (TEMP_DIR w) (job_buildId j) in
      (\<lambda>s. case andThen (materialize w reportProgress projectDir)
                   (publish w j reportProgress projectDir) s
          of (Inr result, s') \<Rightarrow> (Inr result, s')
           | (Inl err, s') \<Rightarrow> (Inl err, snd (attempt w (Rm projectDir) s'))))"

text \<open>
  The store holds the record of one build and the history of what was stored.
  \<^verbatim>\<open>Build.findOne\<close> gives the record when its id is the one asked for.
\<close>

record store =
  stored_build :: "BuildRecord option"
  history :: "BuildRecord list"

definition findOne :: "string \<Rightarrow> store \<Rightarrow> BuildRecord option" where
  "findOne bid st =
     (case stored_build st of
        None \<Rightarrow> None
      | Some b \<Rightarrow> if buildId b = bid then Some b else None)"

definition leave :: "store \<Rightarrow> wstate \<Rightarrow> store" where
  "leave st s = \<lparr>stored_build = Some (db s), history = history st @ hist s\<rparr>"

definition report :: "int \<Rightarrow> string \<Rightarrow> unit io" where
  "report p stp = (\<lambda>s. (Inr (), call_and_save (updateProgress p stp) s))"

text \<open>The job processor of \<^verbatim>\<open>workers/buildWorker.js\<close>: one attempt at one build.\<close>

definition process :: "world \<Rightarrow> job \<Rightarrow> store \<Rightarrow> (jsError + buildResult) \<times> store" where
  "process w j st =
     (case findOne (job_buildId j) st of
        None \<Rightarrow> (Inl (new_Error ''Build not found in database''), st)
      | Some found \<Rightarrow>
          (let s = \<lparr>build = found, db = found, hist = []\<rparr>;
               s = call_and_save
                     (\<lambda>b. b\<lparr>status := Building, progress := 10,
                              currentStep := ''Preparing build environment...''\<rparr>) s
           in case buildAPK w j report s of
                (Inr result, s) \<Rightarrow>
                  (let s = call_and_save
                             (markCompleted w (apkPath result) (apkSize result)
                                (downloadUrl result) None) s
                   in (Inr result, leave st s))
              | (Inl err, s) \<Rightarrow>
                  (let s = s\<lparr>build := db s\<rparr>;
                       s = call_and_save (markFailed w err) s
                   in (Inl err, leave st s))))"

text \<open>The state of the worker after it has loaded the record and stored the baseline.\<close>

definition enter :: "BuildRecord \<Rightarrow> wstate" where
  "enter found =
     call_and_save (\<lambda>b. b\<lparr>status := Building, progress := 10,
                           currentStep := ''Preparing build environment...''\<rparr>)
       \<lparr>build = found, db = found, hist = []\<rparr>"

section \<open>Invariant of one attempt\<close>

text \<open>
  What holds between two stages of one attempt, with \<open>p\<close> the last progress value
  reported: the worker's document and the stored record agree on the progress, the
  document still reads \<^verbatim>\<open>building\<close>, the stored record reads \<^verbatim>\<open>building\<close> or, after a
  cancel, \<^verbatim>\<open>cancelled\<close>, and the records stored so far are ordered by progress.
\<close>

definition run_inv :: "int \<Rightarrow> wstate \<Rightarrow> bool" where
  "run_inv p s =
     (progress (build s) = progress (db s) \<and> 10 \<le> progress (db s) \<and> progress (db s) \<le> p \<and>
      status (build s) = Building \<and> status (db s) \<in> {Building, Cancelled} \<and>
      sorted (map progress (hist s)) \<and>
      (\<forall>x \<in> set (hist s).
         10 \<le> progress x \<and> progress x \<le> progress (db s) \<and> status x \<in> {Building, Cancelled}))"

definition preserves :: "int \<Rightarrow> int \<Rightarrow> 'a io \<Rightarrow> bool" where
  "preserves p q m = (\<forall>s. run_inv p s \<longrightarrow> run_inv q (snd (m s)))"

definition returns :: "'a io \<Rightarrow> 'a \<Rightarrow> bool" where
  "returns m x = (\<forall>s. fst (m s) = Inr x)"

section \<open>Example runs\<close>

text \<open>
  A free build of the demo configuration, queued, and four worlds: one in which every
  operation succeeds and no keystore is configured, one in which the Gradle build fails,
  one in which the owner cancels while Gradle runs, and one with a keystore whose signing
  tool fails.
\<close>

definition demo_job :: job where
  "demo_job =
     \<lparr>job_buildId = ''b1'', job_userId = ''u1'', job_appConfig = demo_config,
      job_features = demo_features, job_isPremium = False\<rparr>"

definition demo_record :: BuildRecord where
  "demo_record =
     \<lparr>user = ''u1'', buildId = ''b1'', status = Queued, progress = 0,
      currentStep = ''Initializing...'', output_apkPath = None, output_apkSize = None,
      output_downloadUrl = None, output_cloudinaryPublicId = None,
      buildTime_startedAt = Some 1000, buildTime_completedAt = None, buildTime_duration = None,
      error_message = None, error_stack = None, error_code = None, jobId = Some ''b1'',
      expiresAt = None, isPremium = False\<rparr>"

definition demo_store :: store where
  "demo_store = \<lparr>stored_build = Some demo_record, history = []\<rparr>"

definition quiet_world :: world where
  "quiet_world =
     \<lparr>fails = (\<lambda>_. None), ANDROID_SDK_ROOT = Some ''/opt/android-sdk'',
      ANDROID_BUILD_TOOLS_VERSION = Some ''34.0.0'', KEYSTORE_PATH = None,
      KEYSTORE_PASSWORD = None, KEY_ALIAS = None, KEY_PASSWORD = None,
      APK_RETENTION_DAYS_PRO = None, APK_RETENTION_DAYS_FREE = None, TEMP_DIR = ''/tmp'',
      BUILD_OUTPUT_DIR = ''/builds'', ANDROID_TEMPLATE_DIR = ''/template'',
      apksigner_ok = (\<lambda>_. False), stat_size = 4096, clock = 5000, cancelDuring = None,
      cancelUser = ''u1''\<rparr>"

definition gradle_error :: jsError where
  "gradle_error =
     \<lparr>err_message = Some ''Command failed: ./gradlew clean assembleRelease'',
      err_stack = None, err_code = None\<rparr>"

definition gradle_fails_world :: world where
  "gradle_fails_world =
     quiet_world\<lparr>fails := (\<lambda>st. if st = ExecGradle ''/tmp/b1'' then Some gradle_error else None)\<rparr>"

definition cancel_world :: world where
  "cancel_world = quiet_world\<lparr>cancelDuring := Some (ExecGradle ''/tmp/b1'')\<rparr>"

definition cancel_then_fail_world :: world where
  "cancel_then_fail_world = gradle_fails_world\<lparr>cancelDuring := Some (Chmod ''/tmp/b1/gradlew'')\<rparr>"

definition keystore_world :: world where
  "keystore_world =
     quiet_world\<lparr>KEYSTORE_PATH := Some ''/keys/release.jks'', KEYSTORE_PASSWORD := Some ''secret'',
       KEY_ALIAS := Some ''release'', KEY_PASSWORD := Some ''secret''\<rparr>"

section \<open>Facts about replacement\<close>

lemma getSubstitution_plain: "CHR ''$'' \<notin> set r \<Longrightarrow> getSubstitution m b a r = r"
  by (induction m b a r rule: getSubstitution.induct) auto

lemma js_replace_all_char_Nil: "js_replace_all_char c r [] = []"
  by (simp add: js_replace_all_char_def)

lemma js_replace_all_char_Cons:
  "js_replace_all_char c r (x # s) = (if x = c then r else [x]) @ js_replace_all_char c r s"
  by (simp add: js_replace_all_char_def)

lemma js_replace_all_char_append:
  "js_replace_all_char c r (s @ t) = js_replace_all_char c r s @ js_replace_all_char c r t"
  by (simp add: js_replace_all_char_def)

lemma escapeXml_Nil: "escapeXml [] = []"
  by (simp add: escapeXml_def js_replace_all_char_Nil)

lemma escapeXml_Cons: "escapeXml (c # s) = xml_entity c @ escapeXml s"
  by (simp add: escapeXml_def xml_entity_def js_replace_all_char_Cons js_replace_all_char_append
      js_replace_all_char_Nil)


lemma escapeXml_no_dollar: "CHR ''$'' \<notin> set s \<Longrightarrow> CHR ''$'' \<notin> set (escapeXml s)"
  by (induction s) (auto simp: escapeXml_Nil escapeXml_Cons xml_entity_def)


lemma greedy_sound:
  "greedy P n suf s = Some k \<Longrightarrow>
     k \<le> length s \<and> n \<le> k \<and> (\<forall>c \<in> set (take k s). P c) \<and> prefix suf (drop k s)"
proof (induction P n suf s arbitrary: k rule: greedy.induct)
  case (1 P n suf)
  then show ?case by (auto split: if_splits)
next
  case (2 P n suf c s)
  show ?case
  proof (cases "if P c then greedy P (n - 1) suf s else None")
    case None
    with 2(2) show ?thesis by (auto split: if_splits)
  next
    case (Some j)
    then have pc: "P c" and g: "greedy P (n - 1) suf s = Some j" by (auto split: if_splits)
    from 2(2) Some have k: "k = Suc j" by simp
    from 2(1)[OF pc g] pc k show ?thesis by auto
  qed
qed

lemma match_here_sound:
  assumes "match_here p s = Some n"
  shows "\<exists>old. take n s = lit p @ old @ closing p \<and> n \<le> length s \<and>
           least p \<le> length old \<and> (\<forall>c \<in> set old. cls p c)"
proof -
  from assms have pre: "prefix (lit p) s" by (auto simp: match_here_def split: if_splits)
  then obtain t where s: "s = lit p @ t" by (auto simp: prefix_def)
  from assms pre obtain k where g: "greedy (cls p) (least p) (closing p) t = Some k"
    and n: "n = length (lit p) + k + length (closing p)"
    by (auto simp: match_here_def s)
  from greedy_sound[OF g] have k: "k \<le> length t" "least p \<le> k" "\<forall>c \<in> set (take k t). cls p c"
    and suf: "prefix (closing p) (drop k t)" by auto
  from suf obtain u where u: "drop k t = closing p @ u" by (auto simp: prefix_def)
  define old where "old = take k t"
  have lo: "length old = k" using k(1) by (simp add: old_def)
  have t: "t = old @ closing p @ u" using u unfolding old_def by (metis append_take_drop_id)
  have s': "s = lit p @ old @ closing p @ u" using s t by simp
  have n': "n = length (lit p @ old @ closing p)" using n lo by simp
  have "s = (lit p @ old @ closing p) @ u" using s' by simp
  then have "take n s = lit p @ old @ closing p"
    unfolding n' by (metis append_eq_conv_conj)
  moreover have "n \<le> length s" unfolding n' by (subst s') simp
  ultimately show ?thesis using k lo by (intro exI[of _ old]) (auto simp: old_def)
qed

lemma find_match_sound:
  "find_match p s = Some (b, m, a) \<Longrightarrow> s = b @ m @ a \<and> match_here p (m @ a) = Some (length m)"
proof (induction p s arbitrary: b rule: find_match.induct)
  case (1 p)
  then show ?case by (auto split: option.splits simp: match_here_def split: if_splits)
next
  case (2 p c s)
  show ?case
  proof (cases "match_here p (c # s)")
    case (Some n)
    from match_here_sound[OF Some] have "n \<le> length (c # s)" by auto
    with 2(2) Some show ?thesis by (auto simp: min_def)
  next
    case None
    with 2(2) obtain b' where "find_match p s = Some (b', m, a)" "b = c # b'" "\<not> anchored p"
      by (auto split: if_splits)
    with 2(1)[OF None] show ?thesis by auto
  qed
qed


lemma str_pattern_sel:
  "anchored (str_pattern l) = False" "lit (str_pattern l) = l"
  by (simp_all add: str_pattern_def)

lemma match_here_str_pattern:
  "match_here (str_pattern l) s = (if prefix l s then Some (length l) else None)"
  by (cases "drop (length l) s") (simp_all add: match_here_def str_pattern_def)

lemma find_match_first:
  "find_match p s = Some (b, m, a) \<Longrightarrow> k < length b \<Longrightarrow> match_here p (drop k s) = None"
proof (induction p s arbitrary: b k rule: find_match.induct)
  case (1 p)
  then show ?case by (auto split: option.splits)
next
  case (2 p c s)
  show ?case
  proof (cases "match_here p (c # s)")
    case (Some n)
    with 2(2,3) show ?thesis by auto
  next
    case None
    with 2(2) obtain b' where f: "find_match p s = Some (b', m, a)" and b: "b = c # b'"
      by (auto split: if_splits)
    show ?thesis
    proof (cases k)
      case 0
      with None show ?thesis by simp
    next
      case (Suc j)
      with 2(3) b have "j < length b'" by simp
      from 2(1)[OF None _ f this] 2(2) None Suc show ?thesis by (auto split: if_splits)
    qed
  qed
qed

lemma find_match_intro:
  "\<not> anchored p \<Longrightarrow> match_here p (m @ a) = Some (length m) \<Longrightarrow>
   (\<And>k. k < length b \<Longrightarrow> match_here p (drop k (b @ m @ a)) = None) \<Longrightarrow>
   find_match p (b @ m @ a) = Some (b, m, a)"
proof (induction b)
  case Nil
  show ?case
  proof (cases "m @ a")
    case Nil
    with Nil.prems(2) show ?thesis by simp
  next
    case (Cons c s)
    have "take (length m) (m @ a) = m" "drop (length m) (m @ a) = a" by simp_all
    with Nil.prems(2) show ?thesis unfolding Cons by simp
  qed
next
  case (Cons c b)
  have "match_here p (c # b @ m @ a) = None" using Cons.prems(3)[of 0] by simp
  moreover have "find_match p (b @ m @ a) = Some (b, m, a)"
  proof (rule Cons.IH[OF Cons.prems(1,2)])
    fix k assume "k < length b"
    then show "match_here p (drop k (b @ m @ a)) = None"
      using Cons.prems(3)[of "Suc k"] by simp
  qed
  ultimately show ?case using Cons.prems(1) by simp
qed

lemma prefix_barrier: "prefix l (u @ c # v) \<Longrightarrow> c \<notin> set l \<Longrightarrow> prefix l u"
proof (induction l arbitrary: u)
  case Nil
  then show ?case by simp
next
  case (Cons x l)
  show ?case
  proof (cases u)
    case Nil
    with Cons.prems show ?thesis by simp
  next
    case (Cons y u')
    with Cons.prems have "x = y" "prefix l (u' @ c # v)" "c \<notin> set l" by simp_all
    with Cons.IH[of u'] Cons show ?thesis by simp
  qed
qed

lemma prefix_drop_sublist:
  assumes "prefix l (drop k x)"
  shows "sublist l x"
proof -
  from assms obtain ss where "drop k x = l @ ss" by (auto simp: prefix_def)
  then have "take k x @ l @ ss = x" by (metis append_take_drop_id)
  then show ?thesis unfolding sublist_def by metis
qed

lemma no_start_append: "no_start l x1 (x2 @ y) \<Longrightarrow> no_start l x2 y \<Longrightarrow> no_start l (x1 @ x2) y"
  unfolding no_start_def
proof (intro allI impI)
  fix k assume a: "\<forall>k<length x1. \<not> prefix l (drop k (x1 @ x2 @ y))"
    and b: "\<forall>k<length x2. \<not> prefix l (drop k (x2 @ y))" and k: "k < length (x1 @ x2)"
  show "\<not> prefix l (drop k ((x1 @ x2) @ y))"
  proof (cases "k < length x1")
    case True
    with a show ?thesis by simp
  next
    case False
    with k have "k - length x1 < length x2" by simp
    with b have "\<not> prefix l (drop (k - length x1) (x2 @ y))" by blast
    with False show ?thesis by simp
  qed
qed

lemma no_start_barrier: "c \<notin> set l \<Longrightarrow> \<not> sublist l x \<Longrightarrow> no_start l (x @ [c]) y"
  unfolding no_start_def
proof (intro allI impI notI)
  fix k assume c: "c \<notin> set l" and ns: "\<not> sublist l x" and k: "k < length (x @ [c])"
    and p: "prefix l (drop k ((x @ [c]) @ y))"
  from k have "drop k ((x @ [c]) @ y) = drop k x @ c # y" by simp
  with p c have "prefix l (drop k x)" using prefix_barrier by metis
  with ns show False using prefix_drop_sublist by blast
qed

lemma no_start_split: "no_start l (x1 @ x2) y \<Longrightarrow> no_start l x1 (x2 @ y) \<and> no_start l x2 y"
  unfolding no_start_def
proof (intro conjI allI impI)
  fix k assume a: "\<forall>k<length (x1 @ x2). \<not> prefix l (drop k ((x1 @ x2) @ y))" and k: "k < length x1"
  then have "k < length (x1 @ x2)" by simp
  with a have "\<not> prefix l (drop k ((x1 @ x2) @ y))" by blast
  then show "\<not> prefix l (drop k (x1 @ x2 @ y))" by simp
next
  fix k assume a: "\<forall>k<length (x1 @ x2). \<not> prefix l (drop k ((x1 @ x2) @ y))" and k: "k < length x2"
  then have "length x1 + k < length (x1 @ x2)" by simp
  with a have "\<not> prefix l (drop (length x1 + k) ((x1 @ x2) @ y))" by blast
  then show "\<not> prefix l (drop k (x2 @ y))" by simp
qed

lemma no_start_not_sublist:
  assumes "no_start l (x @ z) y" and "l \<noteq> []"
  shows "\<not> sublist l x"
proof
  assume "sublist l x"
  then obtain ps ss where x: "x = ps @ l @ ss" by (auto simp: sublist_def)
  have "length ps < length (x @ z)" using x assms(2) by (cases l) auto
  with assms(1) have "\<not> prefix l (drop (length ps) ((x @ z) @ y))" unfolding no_start_def by blast
  then show False by (simp add: x)
qed

lemma find_match_str_no_start:
  "find_match (str_pattern l) s = Some (b, m, a) \<Longrightarrow> m = l \<and> s = b @ l @ a \<and> no_start l b (l @ a)"
proof -
  assume f: "find_match (str_pattern l) s = Some (b, m, a)"
  from find_match_sound[OF f] have s: "s = b @ m @ a"
    and mh: "match_here (str_pattern l) (m @ a) = Some (length m)" by auto
  from mh have "prefix l (m @ a)" "length m = length l"
    by (auto simp: match_here_str_pattern split: if_splits)
  then have m: "m = l" by (metis append_eq_append_conv prefix_def)
  have "no_start l b (l @ a)" unfolding no_start_def
  proof (intro allI impI)
    fix k assume "k < length b"
    from find_match_first[OF f this] show "\<not> prefix l (drop k (b @ l @ a))"
      by (simp add: match_here_str_pattern s m split: if_splits)
  qed
  with m s show ?thesis by simp
qed

lemma find_match_str_intro:
  "no_start l b (l @ a) \<Longrightarrow> find_match (str_pattern l) (b @ l @ a) = Some (b, l, a)"
proof (rule find_match_intro)
  show "\<not> anchored (str_pattern l)" by (simp add: str_pattern_def)
  show "match_here (str_pattern l) (l @ a) = Some (length l)" by (simp add: match_here_str_pattern)
  fix k assume "no_start l b (l @ a)" "k < length b"
  then show "match_here (str_pattern l) (drop k (b @ l @ a)) = None"
    by (simp add: match_here_str_pattern no_start_def)
qed


lemma js_replace_found:
  "find_match p s = Some (b, m, a) \<Longrightarrow> CHR ''$'' \<notin> set r \<Longrightarrow> js_replace p r s = b @ r @ a"
  by (simp add: js_replace_def getSubstitution_plain)


lemma split_dots_chars: "c \<in> set s \<Longrightarrow> c = CHR ''.'' \<or> (\<exists>seg \<in> set (split_dots s). c \<in> set seg)"
proof (induction s)
  case Nil
  then show ?case by simp
next
  case (Cons x s)
  show ?case
  proof (cases "x = CHR ''.''")
    case True
    with Cons show ?thesis by auto
  next
    case False
    show ?thesis
    proof (cases "split_dots s")
      case Nil
      with Cons False show ?thesis by auto
    next
      case (Cons seg segs)
      with Cons.IH Cons.prems False show ?thesis by auto
    qed
  qed
qed

lemma valid_segment_chars: "valid_segment seg \<Longrightarrow> c \<in> set seg \<Longrightarrow> segment_char c"
  by (cases seg) (auto simp: valid_segment_def segment_char_def list_all_iff)

lemma validPackageName_chars:
  assumes "validPackageName name" and "c \<in> set name"
  shows "segment_char c \<or> c = CHR ''.''"
proof -
  from assms(1) have v: "\<forall>seg \<in> set (split_dots name). valid_segment seg"
    by (simp add: validPackageName_def Let_def list_all_iff)
  from split_dots_chars[OF assms(2)] v show ?thesis
    using valid_segment_chars by blast
qed

lemma segment_char_excludes:
  "\<not> segment_char (CHR ''$'')" "\<not> segment_char (CHR ''<'')" "\<not> segment_char (CHR 0x22)"
  "\<not> segment_char (CHR '' '')" "\<not> segment_char (CHR 0x0A)" "\<not> segment_char (CHR ''W'')"
  "\<not> segment_char (CHR ''E'')" "\<not> segment_char (CHR ''/'')" "\<not> segment_char (CHR ''='')"
  by (simp_all add: segment_char_def lower_char_def digit_char_def char_between_def)

lemma validPackageName_excludes:
  assumes "validPackageName name"
  shows "CHR ''$'' \<notin> set name" "CHR ''<'' \<notin> set name" "CHR 0x22 \<notin> set name"
    "CHR '' '' \<notin> set name" "CHR 0x0A \<notin> set name" "CHR ''W'' \<notin> set name"
    "CHR ''E'' \<notin> set name" "CHR ''/'' \<notin> set name" "CHR ''='' \<notin> set name"
  using validPackageName_chars[OF assms] segment_char_excludes by auto

lemma not_sublist_missing_char: "c \<in> set l \<Longrightarrow> c \<notin> set x \<Longrightarrow> \<not> sublist l x"
  by (auto simp: sublist_def)

lemma package_attr_match:
  assumes "find_match package_attr_pattern manifest = Some (b, m, a)"
  shows "\<exists>old. m = ''package='' @ CHR 0x22 # old @ [CHR 0x22]"
proof -
  from find_match_sound[OF assms] have "match_here package_attr_pattern (m @ a) = Some (length m)"
    by simp
  from match_here_sound[OF this] show ?thesis by (auto simp: package_attr_pattern_def)
qed

lemma permissions_eq:
  "permissions f =
     base_permissions @ (if fileUpload f then storage_permissions else []) @
     (if geolocation f then location_permissions else [])"
  by (simp add: permissions_def Let_def)

lemma permissions_no_dollar:
  "CHR ''$'' \<notin> set base_permissions" "CHR ''$'' \<notin> set storage_permissions"
  "CHR ''$'' \<notin> set location_permissions"
  by (simp_all add: base_permissions_def storage_permissions_def location_permissions_def)

lemma manifest_patch_shape:
  assumes valid: "validPackageName (packageName cfg)"
    and pkg: "find_match package_attr_pattern manifest = Some (b, m, a)"
    and app: "find_match (str_pattern application_tag) manifest = Some (b @ m @ b2, m2, a2)"
  shows "updateAndroidManifest manifest cfg f =
           b @ ''package='' @ [CHR 0x22] @ packageName cfg @ [CHR 0x22] @ b2 @
           permissions f @ [CHR 0x0A, CHR 0x0A] @ ''    <application'' @ a2"
proof -
  let ?l = application_tag
  let ?q = "CHR 0x22"
  let ?n = "packageName cfg"
  let ?r = "''package='' @ [?q] @ ?n @ [?q]"
  have l: "?l \<noteq> []" "?q \<notin> set ?l" "CHR ''<'' \<in> set ?l" by (simp_all add: application_tag_def)
  from find_match_sound[OF pkg] have man: "manifest = b @ m @ a" by simp
  from find_match_str_no_start[OF app] have m2: "m2 = ?l"
    and man2: "manifest = (b @ m @ b2) @ ?l @ a2" and ns: "no_start ?l (b @ m @ b2) (?l @ a2)"
    by auto
  from man man2 have a: "a = b2 @ ?l @ a2" by simp
  from package_attr_match[OF pkg] obtain old where m: "m = (b' @ [?q]) @ old @ [?q]" 
    if "b' = ''package=''" for b' by auto
  have r: "CHR ''$'' \<notin> set ?r" using validPackageName_excludes(1)[OF valid] by simp
  have step1: "js_replace package_attr_pattern ?r manifest = b @ ?r @ a"
    using js_replace_found[OF pkg r] .
  have ns_b: "no_start ?l ((b @ ''package='') @ [?q]) (?n @ [?q] @ b2 @ ?l @ a2)"
  proof (rule no_start_barrier[OF l(2)])
    have "no_start ?l ((b @ ''package='') @ ([?q] @ old @ [?q] @ b2)) (?l @ a2)"
      using ns m[OF refl] by simp
    from no_start_not_sublist[OF this l(1)] show "\<not> sublist ?l (b @ ''package='')" .
  qed
  have ns_n: "no_start ?l (?n @ [?q]) (b2 @ ?l @ a2)"
    by (rule no_start_barrier[OF l(2)])
      (rule not_sublist_missing_char[OF l(3) validPackageName_excludes(2)[OF valid]])
  have ns_b2: "no_start ?l b2 (?l @ a2)"
    using no_start_split[of ?l "b @ m" b2 "?l @ a2"] ns by simp
  have inner: "no_start ?l ((?n @ [?q]) @ b2) (?l @ a2)"
    by (rule no_start_append[OF ns_n ns_b2])
  have ns_b': "no_start ?l ((b @ ''package='') @ [?q]) (((?n @ [?q]) @ b2) @ ?l @ a2)"
    using ns_b by simp
  have "no_start ?l (((b @ ''package='') @ [?q]) @ ((?n @ [?q]) @ b2)) (?l @ a2)"
    by (rule no_start_append[OF ns_b' inner])
  then have "no_start ?l (b @ ?r @ b2) (?l @ a2)" by simp
  from find_match_str_intro[OF this]
  have fm: "find_match (str_pattern ?l) (b @ ?r @ a) = Some (b @ ?r @ b2, ?l, a2)"
    by (simp add: a)
  have d: "CHR ''$'' \<notin> set (permissions f @ [CHR 0x0A, CHR 0x0A] @ ''    <application'')"
    by (simp add: permissions_eq permissions_no_dollar)
  have "updateAndroidManifest manifest cfg f =
          js_replace (str_pattern ?l) (permissions f @ [CHR 0x0A, CHR 0x0A] @ ''    <application'')
            (b @ ?r @ a)"
    using step1 by (simp add: updateAndroidManifest_def)
  also have "\<dots> = (b @ ?r @ b2) @ (permissions f @ [CHR 0x0A, CHR 0x0A] @ ''    <application'') @ a2"
    using js_replace_found[OF fm d] .
  finally show ?thesis by simp
qed


lemma no_dollar_literal: "CHR ''$'' \<notin> set r \<Longrightarrow> literal_template r"
  by (induction r rule: literal_template.induct) auto




lemma app_name_char_no_dollar: "app_name_char c \<Longrightarrow> c \<noteq> CHR ''$''"
  by (auto simp: app_name_char_def white_space_char_def word_char_def char_between_def)

lemma app_name_char_plain: "app_name_char c \<Longrightarrow> xml_entity c = [c]"
  by (auto simp: app_name_char_def white_space_char_def word_char_def char_between_def
      xml_entity_def)

lemma validAppName_escapeXml: "validAppName name \<Longrightarrow> escapeXml name = name"
proof -
  have "list_all app_name_char n \<Longrightarrow> escapeXml n = n" for n
    by (induction n) (simp_all add: escapeXml_Nil escapeXml_Cons app_name_char_plain)
  then show "validAppName name \<Longrightarrow> escapeXml name = name" by (simp add: validAppName_def)
qed

lemma validAppName_literal:
  assumes "validAppName name"
  shows "literal_template (escapeXml name)"
proof -
  from assms have "CHR ''$'' \<notin> set name"
    using app_name_char_no_dollar by (auto simp: validAppName_def list_all_iff)
  with validAppName_escapeXml[OF assms] show ?thesis by (simp add: no_dollar_literal)
qed


section \<open>Matching line by line\<close>



















section \<open>The runtime configuration patch on the template\<close>































section \<open>One attempt of the worker\<close>

lemma run_inv_mono: "run_inv p s \<Longrightarrow> p \<le> q \<Longrightarrow> run_inv q s"
  by (auto simp: run_inv_def)

lemma preserves_andThen:
  assumes "preserves p q m" and "\<And>x. preserves q r (k x)" and "q \<le> r"
  shows "preserves p r (andThen m k)"
  unfolding preserves_def
proof (intro allI impI)
  fix s assume s: "run_inv p s"
  obtain res s' where m: "m s = (res, s')" by (cases "m s")
  from assms(1) s m have q: "run_inv q s'" by (auto simp: preserves_def)
  show "run_inv r (snd (andThen m k s))"
  proof (cases res)
    case (Inl e)
    with m q assms(3) show ?thesis by (simp add: andThen_def run_inv_mono)
  next
    case (Inr x)
    with m q assms(2)[of x] show ?thesis by (simp add: andThen_def preserves_def)
  qed
qed

lemma save_progress:
  "progress loaded = progress stored \<Longrightarrow> progress (save loaded this stored) = progress this"
  by (simp add: save_def)

lemma save_status:
  "status (save loaded this stored) =
     (if status this \<noteq> status loaded then status this else status stored)"
  by (simp add: save_def)

lemma sorted_snoc_progress:
  "sorted (map progress h) \<Longrightarrow> \<forall>x \<in> set h. progress x \<le> progress y \<Longrightarrow>
   sorted (map progress (h @ [y]))"
  by (auto simp: sorted_append)

lemma preserves_report: "p \<le> q \<Longrightarrow> preserves p q (report q stp)"
  unfolding preserves_def
proof (intro allI impI)
  fix s assume pq: "p \<le> q" and inv: "run_inv p s"
  let ?this = "updateProgress q stp (build s)"
  let ?stored = "save (build s) ?this (db s)"
  have s': "snd (report q stp s) = s\<lparr>build := ?this, db := ?stored, hist := hist s @ [?stored]\<rparr>"
    by (simp add: report_def call_and_save_def Let_def)
  from inv have agree: "progress (build s) = progress (db s)" by (simp add: run_inv_def)
  have pr: "progress ?stored = q" using save_progress[OF agree] by (simp add: updateProgress_def)
  have st: "status ?stored = status (db s)" by (simp add: save_status updateProgress_def)
  from inv pq pr st show "run_inv q (snd (report q stp s))"
    unfolding s' run_inv_def
    by (auto simp: updateProgress_def sorted_append)
qed

lemma serve_cancel_inv: "run_inv p s \<Longrightarrow> run_inv p (serve_cancel w s)"
  by (auto simp: serve_cancel_def cancelBuild_def run_inv_def sorted_append split: if_splits)

lemma preserves_attempt: "preserves p p (attempt w st)"
  by (auto simp: preserves_def attempt_def Let_def serve_cancel_inv split: option.splits)

lemma preserves_return: "preserves p p (return x)"
  by (simp add: preserves_def return_def)

lemma preserves_access: "preserves p p (access_apk w path)"
  using preserves_attempt[of p w "Access path"]
  by (auto simp: preserves_def access_apk_def split: prod.splits sum.splits)

lemma preserves_buildWithGradle: "preserves p p (buildWithGradle w dir)"
proof -
  have inner: "preserves p p (andThen (attempt w (ExecGradle dir)) (\<lambda>_. access_apk w path))" for path
    by (rule preserves_andThen[OF preserves_attempt preserves_access]) simp
  have "preserves p p (\<lambda>s. case andThen (attempt w (ExecGradle dir)) (\<lambda>_. access_apk w path) s of
            (Inl err, s') \<Rightarrow> (Inl (new_Error (''Build failed: '' @ interpolate (err_message err))), s')
          | (Inr path, s') \<Rightarrow> (Inr path, s'))" for path
    using inner[of path] by (auto simp: preserves_def split: prod.splits sum.splits)
  then show ?thesis unfolding buildWithGradle_def
    by (intro preserves_andThen[OF preserves_attempt]) simp_all
qed

lemma preserves_weaken: "preserves p q m \<Longrightarrow> p' \<le> p \<Longrightarrow> q \<le> q' \<Longrightarrow> preserves p' q' m"
  by (auto simp: preserves_def intro: run_inv_mono)

lemma preserves_stage:
  assumes "p \<le> q" and "preserves q q m" and "\<And>x. preserves q r (k x)" and "q \<le> r"
  shows "preserves p r (andThen (report q stp) (\<lambda>_. andThen m k))"
  by (rule preserves_andThen[OF preserves_report[OF assms(1)] preserves_andThen[OF assms(2,3,4)] assms(4)])

lemma preserves_materialize: "preserves 10 70 (materialize w report dir)"
  unfolding materialize_def
  by (intro preserves_stage preserves_attempt preserves_andThen[OF preserves_report]
      preserves_weaken[OF preserves_buildWithGradle[of 70]]) simp_all

lemma preserves_publish: "preserves 70 95 (publish w j report dir path)"
  unfolding publish_def Let_def
  by (intro preserves_andThen[OF preserves_report] preserves_andThen[OF preserves_attempt]
      preserves_weaken[OF preserves_return[of 95]]) simp_all

lemma preserves_buildAPK: "preserves 10 95 (buildAPK w j report)"
proof -
  let ?dir = "path_join (TEMP_DIR w) (job_buildId j)"
  have body: "preserves 10 95 (andThen (materialize w report ?dir) (publish w j report ?dir))"
    by (rule preserves_andThen[OF preserves_materialize preserves_publish]) simp
  show ?thesis
    unfolding preserves_def buildAPK_def Let_def
  proof (intro allI impI)
    fix s assume inv: "run_inv 10 s"
    obtain res s' where r: "andThen (materialize w report ?dir) (publish w j report ?dir) s = (res, s')"
      by (cases "andThen (materialize w report ?dir) (publish w j report ?dir) s")
    from body inv r have s': "run_inv 95 s'" by (auto simp: preserves_def)
    from preserves_attempt[of 95 w "Rm ?dir"] s' have "run_inv 95 (snd (attempt w (Rm ?dir) s'))"
      by (simp add: preserves_def)
    with s' r show "run_inv 95 (snd (case andThen (materialize w report ?dir)
        (publish w j report ?dir) s of
          (Inr result, s') \<Rightarrow> (Inr result, s')
        | (Inl err, s') \<Rightarrow> (Inl err, snd (attempt w (Rm ?dir) s'))))"
      by (cases res) simp_all
  qed
qed

lemma enter_inv: "run_inv 10 (enter found)"
  by (simp add: enter_def call_and_save_def Let_def run_inv_def save_def)

lemma enter_hist: "hist (enter found) \<noteq> [] \<and> progress (hd (hist (enter found))) = 10"
  by (simp add: enter_def call_and_save_def Let_def save_def)

lemma process_unfold:
  "process w j st =
     (case findOne (job_buildId j) st of
        None \<Rightarrow> (Inl (new_Error ''Build not found in database''), st)
      | Some found \<Rightarrow>
          (case buildAPK w j report (enter found) of
             (Inr result, s) \<Rightarrow>
               (Inr result,
                leave st (call_and_save (markCompleted w (apkPath result) (apkSize result)
                  (downloadUrl result) None) s))
           | (Inl err, s) \<Rightarrow>
               (Inl err, leave st (call_and_save (markFailed w err) (s\<lparr>build := db s\<rparr>)))))"
  by (simp add: process_def enter_def Let_def split: option.splits prod.splits sum.splits)

lemma completed_write:
  assumes "run_inv 95 s"
  shows "let s' = call_and_save (markCompleted w p n u c) s in
           hist s' = hist s @ [db s'] \<and> status (db s') = Completed \<and> progress (db s') = 100"
  using assms
  by (simp add: call_and_save_def Let_def save_def markCompleted_def run_inv_def)

lemma failed_write:
  "let s' = call_and_save (markFailed w err) (s\<lparr>build := db s\<rparr>) in
     hist s' = hist s @ [db s'] \<and> status (db s') = Failed \<and> progress (db s') = progress (db s)"
  by (simp add: call_and_save_def Let_def save_def markFailed_def)

lemma process_outcome:
  assumes "findOne (job_buildId j) st = Some found"
  obtains res s final where
    "buildAPK w j report (enter found) = (res, s)" and "run_inv 95 s" and
    "process w j st = (res, \<lparr>stored_build = Some final, history = history st @ hist s @ [final]\<rparr>)" and
    "status final = (case res of Inl _ \<Rightarrow> Failed | Inr _ \<Rightarrow> Completed)" and
    "progress final = (case res of Inl _ \<Rightarrow> progress (db s) | Inr _ \<Rightarrow> 100)"
proof -
  obtain res s where b: "buildAPK w j report (enter found) = (res, s)"
    by (cases "buildAPK w j report (enter found)")
  from preserves_buildAPK[of w j] enter_inv[of found] b have inv: "run_inv 95 s"
    by (auto simp: preserves_def)
  show ?thesis
  proof (cases res)
    case (Inl err)
    let ?s' = "call_and_save (markFailed w err) (s\<lparr>build := db s\<rparr>)"
    from failed_write[of w err s] have f: "hist ?s' = hist s @ [db ?s']" "status (db ?s') = Failed"
      "progress (db ?s') = progress (db s)" by (simp_all add: Let_def)
    have "process w j st = (res, \<lparr>stored_build = Some (db ?s'), history = history st @ hist s @ [db ?s']\<rparr>)"
      using assms b Inl f(1) by (simp add: process_unfold leave_def)
    with b inv f Inl that[of res s "db ?s'"] show ?thesis by simp
  next
    case (Inr result)
    let ?s' = "call_and_save (markCompleted w (apkPath result) (apkSize result)
                  (downloadUrl result) None) s"
    from completed_write[OF inv, of w "apkPath result" "apkSize result" "downloadUrl result" None]
    have f: "hist ?s' = hist s @ [db ?s']" "status (db ?s') = Completed" "progress (db ?s') = 100"
      by (simp_all add: Let_def)
    have "process w j st = (res, \<lparr>stored_build = Some (db ?s'), history = history st @ hist s @ [db ?s']\<rparr>)"
      using assms b Inr f(1) by (simp add: process_unfold leave_def)
    with b inv f Inr that[of res s "db ?s'"] show ?thesis by simp
  qed
qed

lemma returns_andThen:
  assumes "returns m x" and "returns (k x) y"
  shows "returns (andThen m k) y"
  unfolding returns_def
proof
  fix s
  obtain res s' where e: "m s = (res, s')" by (cases "m s")
  from assms(1) have "fst (m s) = Inr x" unfolding returns_def by (rule spec)
  with e have "res = Inr x" by simp
  moreover from assms(2) have "fst (k x s') = Inr y" unfolding returns_def by (rule spec)
  ultimately show "fst (andThen m k s) = Inr y" using e by (simp add: andThen_def)
qed

lemma returns_report: "returns (report p stp) ()"
  by (simp add: returns_def report_def)

lemma returns_attempt: "fails w st = None \<Longrightarrow> returns (attempt w st) ()"
  by (simp add: returns_def attempt_def Let_def)

lemma returns_return: "returns (return x) x"
  by (simp add: returns_def return_def)

lemma returns_access: "fails w (Access path) = None \<Longrightarrow> returns (access_apk w path) path"
  by (simp add: returns_def access_apk_def attempt_def Let_def)

lemma returns_buildWithGradle:
  assumes "\<And>p. fails w (Chmod p) = None" "\<And>p. fails w (ExecGradle p) = None"
    "\<And>p. fails w (Access p) = None"
  shows "returns (buildWithGradle w dir)
           (path_join dir ''app/build/outputs/apk/release/app-release-unsigned.apk'')"
proof -
  let ?path = "path_join dir ''app/build/outputs/apk/release/app-release-unsigned.apk''"
  have "returns (andThen (attempt w (ExecGradle dir)) (\<lambda>_. access_apk w ?path)) ?path"
    by (rule returns_andThen[OF returns_attempt[OF assms(2)] returns_access[OF assms(3)]])
  then have i: "fst (andThen (attempt w (ExecGradle dir)) (\<lambda>_. access_apk w ?path) s) = Inr ?path" for s
    by (simp add: returns_def)
  have "returns (\<lambda>s. case andThen (attempt w (ExecGradle dir)) (\<lambda>_. access_apk w ?path) s of
            (Inl err, s') \<Rightarrow> (Inl (new_Error (''Build failed: '' @ interpolate (err_message err))), s')
          | (Inr path, s') \<Rightarrow> (Inr path, s')) ?path"
    unfolding returns_def
  proof
    fix s
    obtain res s' where e: "andThen (attempt w (ExecGradle dir)) (\<lambda>_. access_apk w ?path) s = (res, s')"
      by (cases "andThen (attempt w (ExecGradle dir)) (\<lambda>_. access_apk w ?path) s")
    with i[of s] have "res = Inr ?path" by simp
    with e show "fst (case andThen (attempt w (ExecGradle dir)) (\<lambda>_. access_apk w ?path) s of
            (Inl err, s') \<Rightarrow> (Inl (new_Error (''Build failed: '' @ interpolate (err_message err))), s')
          | (Inr path, s') \<Rightarrow> (Inr path, s')) = Inr ?path" by simp
  qed
  then show ?thesis unfolding buildWithGradle_def
    by (rule returns_andThen[OF returns_attempt[OF assms(1)]])
qed

lemma returns_materialize:
  assumes "\<And>st. (\<forall>a b. st \<noteq> CopyFile a b) \<Longrightarrow> fails w st = None"
  shows "returns (materialize w report dir)
           (path_join dir ''app/build/outputs/apk/release/app-release-unsigned.apk'')"
  unfolding materialize_def
  by (intro returns_andThen[OF returns_report] returns_andThen[OF returns_attempt]
      returns_buildWithGradle assms) simp_all

lemma returns_publish:
  assumes "\<And>st. st \<noteq> CopyFile (path_join (TEMP_DIR w) (job_buildId j @ ''-signed.apk''))
              (path_join (BUILD_OUTPUT_DIR w) (job_buildId j @ ''.apk'')) \<Longrightarrow> fails w st = None"
    and "signAPK w path (job_buildId j) \<noteq> path_join (TEMP_DIR w) (job_buildId j @ ''-signed.apk'')"
  shows "returns (publish w j report dir path)
           \<lparr>apkPath = path_join (BUILD_OUTPUT_DIR w) (job_buildId j @ ''.apk''),
            apkSize = stat_size w, downloadUrl = ''/downloads/'' @ job_buildId j @ ''.apk''\<rparr>"
  unfolding publish_def Let_def
  using assms(2)
  by (intro returns_andThen[OF returns_report] returns_andThen[OF returns_attempt]
      returns_return assms(1)) simp_all

lemma unsigned_not_signed:
  "path_join (path_join tmp bid) ''app/build/outputs/apk/release/app-release-unsigned.apk'' \<noteq>
   path_join tmp (bid @ ''-signed.apk'')"
  by (simp add: path_join_def)

lemma buildAPK_returns:
  assumes ok: "\<And>st. st \<noteq> CopyFile (path_join (TEMP_DIR w) (job_buildId j @ ''-signed.apk''))
              (path_join (BUILD_OUTPUT_DIR w) (job_buildId j @ ''.apk'')) \<Longrightarrow> fails w st = None"
    and unsigned: "signAPK w
        (path_join (path_join (TEMP_DIR w) (job_buildId j))
           ''app/build/outputs/apk/release/app-release-unsigned.apk'') (job_buildId j) =
        path_join (path_join (TEMP_DIR w) (job_buildId j))
           ''app/build/outputs/apk/release/app-release-unsigned.apk''"
  shows "returns (buildAPK w j report)
           \<lparr>apkPath = path_join (BUILD_OUTPUT_DIR w) (job_buildId j @ ''.apk''),
            apkSize = stat_size w, downloadUrl = ''/downloads/'' @ job_buildId j @ ''.apk''\<rparr>"
proof -
  let ?dir = "path_join (TEMP_DIR w) (job_buildId j)"
  let ?apk = "path_join ?dir ''app/build/outputs/apk/release/app-release-unsigned.apk''"
  have m: "returns (materialize w report ?dir) ?apk"
  proof (rule returns_materialize)
    fix st :: step assume "\<forall>a b. st \<noteq> CopyFile a b"
    then have "st \<noteq> CopyFile (path_join (TEMP_DIR w) (job_buildId j @ ''-signed.apk''))
                (path_join (BUILD_OUTPUT_DIR w) (job_buildId j @ ''.apk''))" by simp
    then show "fails w st = None" by (rule ok)
  qed
  have p: "returns (publish w j report ?dir ?apk)
           \<lparr>apkPath = path_join (BUILD_OUTPUT_DIR w) (job_buildId j @ ''.apk''),
            apkSize = stat_size w, downloadUrl = ''/downloads/'' @ job_buildId j @ ''.apk''\<rparr>"
  proof (rule returns_publish)
    show "signAPK w ?apk (job_buildId j) \<noteq> path_join (TEMP_DIR w) (job_buildId j @ ''-signed.apk'')"
      unfolding unsigned by (rule unsigned_not_signed)
  qed (rule ok)
  let ?r = "\<lparr>apkPath = path_join (BUILD_OUTPUT_DIR w) (job_buildId j @ ''.apk''),
            apkSize = stat_size w, downloadUrl = ''/downloads/'' @ job_buildId j @ ''.apk''\<rparr>"
  from returns_andThen[of "materialize w report ?dir" ?apk "publish w j report ?dir" ?r, OF m p]
  have r: "fst (andThen (materialize w report ?dir) (publish w j report ?dir) s) = Inr ?r" for s
    by (simp add: returns_def)
  show ?thesis unfolding returns_def
  proof
    fix s
    obtain res s' where e: "andThen (materialize w report ?dir) (publish w j report ?dir) s = (res, s')"
      by (cases "andThen (materialize w report ?dir) (publish w j report ?dir) s")
    with r[of s] have "res = Inr ?r" by simp
    with e show "fst (buildAPK w j report s) = Inr ?r" by (simp add: buildAPK_def Let_def)
  qed
qed

lemma process_succeeds:
  assumes ok: "\<And>st. st \<noteq> CopyFile (path_join (TEMP_DIR w) (job_buildId j @ ''-signed.apk''))
              (path_join (BUILD_OUTPUT_DIR w) (job_buildId j @ ''.apk'')) \<Longrightarrow> fails w st = None"
    and unsigned: "signAPK w
        (path_join (path_join (TEMP_DIR w) (job_buildId j))
           ''app/build/outputs/apk/release/app-release-unsigned.apk'') (job_buildId j) =
        path_join (path_join (TEMP_DIR w) (job_buildId j))
           ''app/build/outputs/apk/release/app-release-unsigned.apk''"
    and found: "findOne (job_buildId j) st = Some found"
  shows "\<exists>st'. process w j st =
           (Inr \<lparr>apkPath = path_join (BUILD_OUTPUT_DIR w) (job_buildId j @ ''.apk''),
                 apkSize = stat_size w, downloadUrl = ''/downloads/'' @ job_buildId j @ ''.apk''\<rparr>, st')"
proof -
  from buildAPK_returns[OF ok unsigned]
  have "fst (buildAPK w j report (enter found)) =
      Inr \<lparr>apkPath = path_join (BUILD_OUTPUT_DIR w) (job_buildId j @ ''.apk''),
           apkSize = stat_size w, downloadUrl = ''/downloads/'' @ job_buildId j @ ''.apk''\<rparr>"
    by (simp add: returns_def)
  with found show ?thesis
    by (cases "buildAPK w j report (enter found)") (simp add: process_unfold)
qed

section \<open>The manifest patch\<close>

lemma permissions_lines: "permissions f = on_new_lines (declared_permissions f)"
  by (simp add: permissions_eq declared_permissions_def on_new_lines_def base_permissions_def
      storage_permissions_def location_permissions_def internet_line_def network_state_line_def
      read_storage_line_def write_storage_line_def fine_location_line_def
      coarse_location_line_def)

lemma permission_lines_distinct:
  "distinct [internet_line, network_state_line, read_storage_line, write_storage_line,
     fine_location_line, coarse_location_line]"
  by (simp add: internet_line_def network_state_line_def read_storage_line_def
      write_storage_line_def fine_location_line_def coarse_location_line_def)

lemma declared_permissions_count:
  "count_list (declared_permissions f) read_storage_line = (if fileUpload f then 1 else 0)"
  "count_list (declared_permissions f) write_storage_line = (if fileUpload f then 1 else 0)"
  "count_list (declared_permissions f) fine_location_line = (if geolocation f then 1 else 0)"
  "count_list (declared_permissions f) coarse_location_line = (if geolocation f then 1 else 0)"
  using permission_lines_distinct by (auto simp: declared_permissions_def)

text \<open>
  C6. For a valid package name and a manifest whose first application declaration comes
  after its package attribute, the manifest patch puts the configured package name into the
  package attribute and inserts the permission declarations, each on a line of its own, at
  one place: directly before the application declaration. Each of the two storage
  permissions is declared exactly once when file upload is enabled and not at all
  otherwise; each of the two location permissions is declared exactly once when
  geolocation is enabled and not at all otherwise.
\<close>

theorem updateAndroidManifest_permissions:
  assumes "validPackageName (packageName cfg)"
    and "find_match package_attr_pattern manifest = Some (b, m, a)"
    and "find_match (str_pattern application_tag) manifest = Some (b @ m @ b2, m2, a2)"
  shows "updateAndroidManifest manifest cfg f =
           b @ ''package='' @ [CHR 0x22] @ packageName cfg @ [CHR 0x22] @ b2 @
           on_new_lines (declared_permissions f) @
           [CHR 0x0A, CHR 0x0A] @ ''    <application'' @ a2 \<and>
         count_list (declared_permissions f) read_storage_line = (if fileUpload f then 1 else 0) \<and>
         count_list (declared_permissions f) write_storage_line = (if fileUpload f then 1 else 0) \<and>
         count_list (declared_permissions f) fine_location_line = (if geolocation f then 1 else 0) \<and>
         count_list (declared_permissions f) coarse_location_line = (if geolocation f then 1 else 0)"
  using manifest_patch_shape[OF assms, of f] declared_permissions_count[of f]
  by (simp add: permissions_lines)

lemma example_manifest_package:
  \<open>find_match package_attr_pattern example_manifest =
     Some (''<manifest '', ''package="com.web2apk.template"'',
       ''>'' @ [CHR 0x0A] @ ''    <application android:label="@string/app_name" />'' @
       [CHR 0x0A] @ ''</manifest>'')\<close>
  by (simp add: example_manifest_def package_attr_pattern_def match_here_def)

lemma example_manifest_application:
  \<open>find_match (str_pattern application_tag) example_manifest =
     Some (''<manifest '' @ ''package="com.web2apk.template"'' @ (''>'' @ [CHR 0x0A] @ ''    ''),
       ''<application'',
       '' android:label="@string/app_name" />'' @ [CHR 0x0A] @ ''</manifest>'')\<close>
  by (simp add: example_manifest_def application_tag_def match_here_str_pattern str_pattern_sel)

lemma demo_config_valid: "validPackageName (packageName demo_config)"
  by (simp add: demo_config_def validPackageName_def valid_segment_def lower_char_def
      segment_char_def digit_char_def char_between_def)

theorem updateAndroidManifest_permissions_witness:
  \<open>validPackageName (packageName demo_config) \<and>
   updateAndroidManifest example_manifest demo_config demo_features =
     ''<manifest package="com.acme.demo">'' @ [CHR 0x0A] @ ''    '' @ [CHR 0x0A] @
     ''    <uses-permission android:name="android.permission.INTERNET" />'' @ [CHR 0x0A] @
     ''    <uses-permission android:name="android.permission.ACCESS_NETWORK_STATE" />'' @
     [CHR 0x0A, CHR 0x0A] @
     ''    <application android:label="@string/app_name" />'' @ [CHR 0x0A] @ ''</manifest>'' \<and>
   count_list (declared_permissions demo_features) read_storage_line = 0\<close>
  using updateAndroidManifest_permissions[OF demo_config_valid example_manifest_package
      example_manifest_application, of demo_features] demo_config_valid
  by (simp add: demo_config_def demo_features_def declared_permissions_def on_new_lines_def
      internet_line_def network_state_line_def)

text \<open>
  C10. Whatever the feature flags are, the text inserted before the application declaration
  starts with the INTERNET and ACCESS_NETWORK_STATE permission declarations; with file
  upload and geolocation disabled it is exactly these two declarations.
\<close>

theorem updateAndroidManifest_network_permissions:
  assumes "validPackageName (packageName cfg)"
    and "find_match package_attr_pattern manifest = Some (b, m, a)"
    and "find_match (str_pattern application_tag) manifest = Some (b @ m @ b2, m2, a2)"
  shows \<open>\<exists>extra.
           updateAndroidManifest manifest cfg f =
             b @ ''package='' @ [CHR 0x22] @ packageName cfg @ [CHR 0x22] @ b2 @
             [CHR 0x0A] @ ''    <uses-permission android:name="android.permission.INTERNET" />'' @
             [CHR 0x0A] @
             ''    <uses-permission android:name="android.permission.ACCESS_NETWORK_STATE" />'' @
             extra @ [CHR 0x0A, CHR 0x0A] @ ''    <application'' @ a2 \<and>
           (\<not> fileUpload f \<and> \<not> geolocation f \<longrightarrow> extra = [])\<close>
  using manifest_patch_shape[OF assms, of f]
  by (intro exI[of _ "(if fileUpload f then storage_permissions else []) @
        (if geolocation f then location_permissions else [])"])
    (simp add: permissions_eq base_permissions_def)

theorem updateAndroidManifest_network_permissions_witness:
  \<open>\<not> fileUpload demo_features \<and> \<not> geolocation demo_features \<and>
   (\<exists>extra.
      updateAndroidManifest example_manifest demo_config demo_features =
        ''<manifest '' @ ''package='' @ [CHR 0x22] @ packageName demo_config @ [CHR 0x22] @
        (''>'' @ [CHR 0x0A] @ ''    '') @
        [CHR 0x0A] @ ''    <uses-permission android:name="android.permission.INTERNET" />'' @
        [CHR 0x0A] @
        ''    <uses-permission android:name="android.permission.ACCESS_NETWORK_STATE" />'' @
        extra @ [CHR 0x0A, CHR 0x0A] @ ''    <application'' @
        ('' android:label="@string/app_name" />'' @ [CHR 0x0A] @ ''</manifest>'') \<and>
      extra = [])\<close>
proof -
  have off: "\<not> fileUpload demo_features \<and> \<not> geolocation demo_features"
    by (simp add: demo_features_def)
  from updateAndroidManifest_network_permissions[OF demo_config_valid example_manifest_package
      example_manifest_application, of demo_features] off
  show ?thesis by blast
qed

section \<open>The display name patch\<close>





text \<open>
  Where the escaped name holds a pattern, the pattern is expanded: the name \<^verbatim>\<open>A$&B\<close>,
  escaped to \<^verbatim>\<open>A$&amp;B\<close>, puts the old resource into the new value. The check of the
  route admits no such name.
\<close>

lemma updateStringsXml_dollar_pattern:
  \<open>updateStringsXml ''<string name="app_name">Old</string>'' (demo_config\<lparr>appName := ''A$&B''\<rparr>) =
     ''<string name="app_name">A<string name="app_name">Old</string>amp;B</string>'' \<and>
   \<not> validAppName ''A$&B''\<close>
  by (simp add: updateStringsXml_def js_replace_def app_name_pattern_def app_name_open_def
      app_name_close_def match_here_def dot_def line_terminator_def escapeXml_def
      js_replace_all_char_def validAppName_def app_name_char_def white_space_char_def
      word_char_def char_between_def)
section \<open>The runtime configuration patch\<close>




end
